theory Spec2Isabelle
  imports Main
begin

section \<open>The retrieval service: data crossing the module boundary\<close>

text \<open>
  The module \<^verbatim>\<open>Backend/Retrieval.py\<close> wires three HTTP handlers around objects of
  external libraries. Only the handlers and the module-level start-up code are the
  repository's own; they are embedded below. Python text is a \<open>string\<close> whose characters
  stand for the code points below 256.
\<close>

datatype error = ProviderError string | TypeError | AttributeError

text \<open>A chat message as the handler reads it: the attributes \<open>type\<close> and \<open>content\<close>.\<close>

record message =
  mtype :: string
  content :: string

text \<open>Metadata values are untyped in Python; a path is a string, anything else is not.\<close>

datatype meta_value = MStr string | MInt int | MNone

record document =
  page_content :: string
  metadata :: "string \<rightharpoonup> meta_value"

text \<open>The values found in the mapping that \<open>qa_chain.invoke\<close> returns.\<close>

datatype "value" = VStr string | VDocs "document list" | VMsgs "message list"

type_synonym response = "string \<rightharpoonup> value"

text \<open>A JSON object with string members, in the order the handler writes them.\<close>

type_synonym json_obj = "(string \<times> string) list"

record chat_response =
  answer :: "value"
  sources :: "json_obj list"
  chat_history :: "json_obj list"

record settings =
  MONGODB_URI :: "string option"
  MONGODB_DB :: string
  MONGODB_COLLECTION :: string

text \<open>
  The process state the handlers share: \<open>messages\<close> is
  \<^verbatim>\<open>memory.chat_memory.messages\<close>, the only global a handler assigns or an external call
  mutates; every other global is read-only after start-up and lives in the record's
  extension.
\<close>

record app_state =
  messages :: "message list"

section \<open>Library functions the handlers call on strings\<close>

text \<open>\<^verbatim>\<open>str.isspace\<close> on one character, for the code points below 256.\<close>

definition isspace :: "char \<Rightarrow> bool" where
  "isspace c =
     (let n = (of_char c :: nat)
      in (9 \<le> n \<and> n \<le> 13) \<or> (28 \<le> n \<and> n \<le> 32) \<or> n = 133 \<or> n = 160)"

text \<open>\<^verbatim>\<open>str.strip()\<close>: drop the whitespace at both ends.\<close>

definition strip :: "string \<Rightarrow> string" where
  "strip s = rev (dropWhile isspace (rev (dropWhile isspace s)))"

text \<open>
  \<^verbatim>\<open>os.path.basename\<close> of \<^verbatim>\<open>posixpath\<close>:
  \<^verbatim>\<open>i = p.rfind('/') + 1; return p[i:]\<close>.
\<close>

definition basename :: "string \<Rightarrow> string" where
  "basename p = rev (takeWhile (\<lambda>c. c \<noteq> CHR ''/'') (rev p))"

section \<open>The handlers\<close>

text \<open>
  \<^verbatim>\<open>file_path = doc.metadata.get("source", ""); pdf_name = os.path.basename(file_path)\<close>.
  \<open>basename\<close> raises \<open>TypeError\<close> on a value that is not a path.
\<close>

definition source_entry :: "document \<Rightarrow> error + json_obj" where
  "source_entry doc =
     (case metadata doc ''source'' of
        None \<Rightarrow> Inr [(''source'', basename '''')]
      | Some (MStr file_path) \<Rightarrow> Inr [(''source'', basename file_path)]
      | Some _ \<Rightarrow> Inl TypeError)"

text \<open>The \<^verbatim>\<open>for doc in ...: sources.append(...)\<close> loop; \<open>sources'\<close> is the list \<^verbatim>\<open>sources\<close> built so far.\<close>

fun sources_loop :: "json_obj list \<Rightarrow> document list \<Rightarrow> error + json_obj list" where
  "sources_loop sources' [] = Inr sources'"
| "sources_loop sources' (doc # docs) =
     (case source_entry doc of
        Inl e \<Rightarrow> Inl e
      | Inr entry \<Rightarrow> sources_loop (sources' @ [entry]) docs)"

text \<open>
  \<^verbatim>\<open>response.get("source_documents", [])\<close> as the sequence the loop iterates. An element
  that is no document has no attribute \<open>metadata\<close>.
\<close>

definition source_documents :: "response \<Rightarrow> error + document list" where
  "source_documents response =
     (case response ''source_documents'' of
        None \<Rightarrow> Inr []
      | Some (VDocs docs) \<Rightarrow> Inr docs
      | Some (VStr t) \<Rightarrow> (if t = [] then Inr [] else Inl AttributeError)
      | Some (VMsgs ms) \<Rightarrow> (if ms = [] then Inr [] else Inl AttributeError))"

text \<open>\<^verbatim>\<open>{"user": msg.content} if msg.type == "human" else {"bot": msg.content}\<close>\<close>

definition render_message :: "message \<Rightarrow> json_obj" where
  "render_message msg =
     (if mtype msg = ''human'' then [(''user'', content msg)] else [(''bot'', content msg)])"

text \<open>
  \<^verbatim>\<open>POST /chat\<close>. The call \<^verbatim>\<open>qa_chain.invoke({"question": query})\<close> is the parameter
  \<open>invoke\<close>: given the memory's messages and the question it returns the result mapping or
  the exception raised, and the messages it leaves in the memory. The handler has no
  \<^verbatim>\<open>try\<close>: an exception ends the request where it is raised.
\<close>

type_synonym chain = "message list \<Rightarrow> string \<Rightarrow> (error + response) \<times> message list"

definition chat_endpoint ::
  "chain \<Rightarrow> 'a app_state_scheme \<Rightarrow> string \<Rightarrow> (error + chat_response) \<times> 'a app_state_scheme" where
  "chat_endpoint invoke s request_query =
     (let query = strip request_query;
          (outcome, msgs) = invoke (messages s) query;
          s' = s\<lparr>messages := msgs\<rparr>
      in case outcome of
           Inl e \<Rightarrow> (Inl e, s')
         | Inr response \<Rightarrow>
             (case source_documents response of
                Inl e \<Rightarrow> (Inl e, s')
              | Inr docs \<Rightarrow>
                  (case sources_loop [] docs of
                     Inl e \<Rightarrow> (Inl e, s')
                   | Inr srcs \<Rightarrow>
                       (Inr \<lparr>answer = (case response ''answer'' of None \<Rightarrow> VStr '''' | Some a \<Rightarrow> a),
                             sources = srcs,
                             chat_history = map render_message (messages s')\<rparr>,
                        s'))))"

text \<open>\<^verbatim>\<open>GET /reset_memory\<close>\<close>

definition reset_memory :: "'a app_state_scheme \<Rightarrow> json_obj \<times> 'a app_state_scheme" where
  "reset_memory s = ([(''message'', ''Memory cleared!'')], s\<lparr>messages := []\<rparr>)"

text \<open>\<^verbatim>\<open>GET /\<close>\<close>

definition root :: "'a app_state_scheme \<Rightarrow> json_obj \<times> 'a app_state_scheme" where
  "root s = ([(''message'', ''RAG Chatbot (MongoDB Atlas) is running!'')], s)"

section \<open>Start-up\<close>

text \<open>
  \<^verbatim>\<open>load_dotenv()\<close> with its default \<^verbatim>\<open>override=False\<close>: a variable of the \<^verbatim>\<open>.env\<close> file
  is set unless the environment already has it.
\<close>

definition load_dotenv :: "(string \<rightharpoonup> string) \<Rightarrow> (string \<rightharpoonup> string) \<Rightarrow> (string \<rightharpoonup> string)" where
  "load_dotenv dotenv environ = dotenv ++ environ"

text \<open>\<^verbatim>\<open>os.getenv(key, default)\<close>; without a default it is the lookup itself.\<close>

definition getenv :: "(string \<rightharpoonup> string) \<Rightarrow> string \<Rightarrow> string \<Rightarrow> string" where
  "getenv env key dflt = (case env key of None \<Rightarrow> dflt | Some v \<Rightarrow> v)"

text \<open>The three assignments that read the environment.\<close>

definition load_settings :: "(string \<rightharpoonup> string) \<Rightarrow> settings" where
  "load_settings env =
     \<lparr>MONGODB_URI = env ''MONGODB_URI'',
      MONGODB_DB = getenv env ''MONGODB_DB'' ''my_db'',
      MONGODB_COLLECTION = getenv env ''MONGODB_COLLECTION'' ''vector_docs''\<rparr>"

record 'q server =
  config :: settings
  qa_chain :: 'q
  state :: app_state

text \<open>
  The module-level code, run once when the server imports the module; an exception
  there ends the process before it serves. The module tests none of the three
  variables itself. The constructors it calls belong to external libraries and are
  parameters: \<open>MongoClient\<close> receives the connection string, which is \<open>None\<close> when the
  variable is unset; \<open>build_chain\<close> stands for the statements from
  \<^verbatim>\<open>db = client[MONGODB_DB]\<close> to \<^verbatim>\<open>qa_chain = ...\<close>. These use the client and the two
  names, and their constructors (\<^verbatim>\<open>HuggingFaceEmbeddings()\<close>, \<^verbatim>\<open>ChatGroq(...)\<close>) read the
  process environment that \<^verbatim>\<open>load_dotenv\<close> has filled, so \<open>build_chain\<close> receives that
  environment too. The memory starts empty.
\<close>

definition startup ::
  "(string option \<Rightarrow> error + 'c) \<Rightarrow>
   ((string \<rightharpoonup> string) \<Rightarrow> 'c \<Rightarrow> string \<Rightarrow> string \<Rightarrow> error + 'q) \<Rightarrow>
   (string \<rightharpoonup> string) \<Rightarrow> (string \<rightharpoonup> string) \<Rightarrow> error + 'q server" where
  "startup MongoClient build_chain dotenv environ =
     (let env = load_dotenv dotenv environ;
          cfg = load_settings env
      in case MongoClient (MONGODB_URI cfg) of
           Inl e \<Rightarrow> Inl e
         | Inr client \<Rightarrow>
             (case build_chain env client (MONGODB_DB cfg) (MONGODB_COLLECTION cfg) of
                Inl e \<Rightarrow> Inl e
              | Inr chain \<Rightarrow> Inr \<lparr>config = cfg, qa_chain = chain, state = \<lparr>messages = []\<rparr>\<rparr>))"

text \<open>
  A client constructor with the MongoDB driver's treatment of a missing connection
  string: it falls back to the local host and opens no connection while constructing.
  An empty string is refused; any other string is kept as it is, unparsed. And a chain
  builder that, like the language model's constructor, raises unless the environment
  holds a non-empty \<^verbatim>\<open>GROQ_API_KEY\<close>.
\<close>

definition local_client :: "string option \<Rightarrow> error + string" where
  "local_client host =
     (case host of
        None \<Rightarrow> Inr ''localhost''
      | Some h \<Rightarrow> (if h = [] then Inl (ProviderError ''empty host'') else Inr h))"

definition keyed_chain ::
  "(string \<rightharpoonup> string) \<Rightarrow> string \<Rightarrow> string \<Rightarrow> string \<Rightarrow> error + string \<times> string \<times> string" where
  "keyed_chain env client db coll =
     (case env ''GROQ_API_KEY'' of
        None \<Rightarrow> Inl (ProviderError ''GROQ_API_KEY is not set'')
      | Some k \<Rightarrow>
          (if k = [] then Inl (ProviderError ''GROQ_API_KEY is empty'')
           else Inr (client, db, coll)))"

section \<open>The chain behind \<open>qa_chain.invoke\<close>\<close>

text \<open>The three external providers of a request, each of which may fail.\<close>

record 'v providers =
  embed :: "string \<Rightarrow> error + 'v"
  retrieve :: "'v \<Rightarrow> error + document list"
  generate :: "string \<Rightarrow> document list \<Rightarrow> message list \<Rightarrow> error + string"

text \<open>
  Modelled from the spec: the body of \<open>qa_chain.invoke\<close>, the library's conversational
  retrieval chain with the memory attached, is not part of the repository. The spec
  (4.1) gives its steps: embed the query, fetch the similar chunks, generate from the
  query, the chunks and the memory's history; on success append a user turn and an
  assistant turn to the memory, in that order; when a provider fails, surface the error
  and leave the memory unmodified. The turns are messages of type \<open>human\<close> and \<open>ai\<close>;
  the result maps \<open>answer\<close> to the generated text and \<open>source_documents\<close> to the chunks.
\<close>

definition qa_chain_invoke :: "'v providers \<Rightarrow> chain" where
  "qa_chain_invoke P history question =
     (case embed P question of
        Inl e \<Rightarrow> (Inl e, history)
      | Inr v \<Rightarrow>
          (case retrieve P v of
             Inl e \<Rightarrow> (Inl e, history)
           | Inr docs \<Rightarrow>
               (case generate P question docs history of
                  Inl e \<Rightarrow> (Inl e, history)
                | Inr a \<Rightarrow>
                    (Inr [''question'' \<mapsto> VStr question, ''chat_history'' \<mapsto> VMsgs history,
                          ''answer'' \<mapsto> VStr a, ''source_documents'' \<mapsto> VDocs docs],
                     history @ [\<lparr>mtype = ''human'', content = question\<rparr>,
                                \<lparr>mtype = ''ai'', content = a\<rparr>]))))"

text \<open>Requests handled one after the other, none interleaved with another.\<close>

fun chat_calls ::
  "chain \<Rightarrow> 'a app_state_scheme \<Rightarrow> string list \<Rightarrow>
   (error + chat_response) list \<times> 'a app_state_scheme" where
  "chat_calls invoke s [] = ([], s)"
| "chat_calls invoke s (q # qs) =
     (let (r, s1) = chat_endpoint invoke s q;
          (rs, s2) = chat_calls invoke s1 qs
      in (r # rs, s2))"

text \<open>Inputs for worked examples: chunks, providers, chains and a memory in use.\<close>

definition policy_chunk :: document where
  "policy_chunk = \<lparr>page_content = ''Refunds are processed within 30 days of purchase.'',
                   metadata = [''source'' \<mapsto> MStr ''/docs/policy.pdf'', ''page'' \<mapsto> MInt 3]\<rparr>"

definition untitled_chunk :: document where
  "untitled_chunk = \<lparr>page_content = ''A note without a file.'', metadata = Map.empty\<rparr>"

definition refund_providers :: "nat providers" where
  "refund_providers =
     \<lparr>embed = (\<lambda>t. Inr (length t)),
      retrieve = (\<lambda>v. Inr [policy_chunk]),
      generate = (\<lambda>q docs h. Inr ''Refunds are processed within 30 days.'')\<rparr>"

definition quota_providers :: "nat providers" where
  "quota_providers =
     \<lparr>embed = (\<lambda>t. Inr (length t)),
      retrieve = (\<lambda>v. Inr [policy_chunk]),
      generate = (\<lambda>q docs h. Inl (ProviderError ''quota''))\<rparr>"

definition numbered_chunk :: document where
  "numbered_chunk = \<lparr>page_content = ''Returns need the receipt.'',
                     metadata = [''source'' \<mapsto> MInt 7]\<rparr>"

definition numbered_providers :: "nat providers" where
  "numbered_providers =
     \<lparr>embed = (\<lambda>t. Inr (length t)),
      retrieve = (\<lambda>v. Inr [numbered_chunk]),
      generate = (\<lambda>q docs h. Inr ''Keep the receipt.'')\<rparr>"

definition echo_chain :: chain where
  "echo_chain history question =
     (Inr [''answer'' \<mapsto> VStr question], history @ [\<lparr>mtype = ''human'', content = question\<rparr>])"

definition bare_chain :: chain where
  "bare_chain history question = (Inr Map.empty, history)"

definition listing_chain :: chain where
  "listing_chain history question =
     (Inr [''answer'' \<mapsto> VStr ''See the policy.'',
           ''source_documents'' \<mapsto> VDocs [policy_chunk, untitled_chunk, policy_chunk]],
      history @ [\<lparr>mtype = ''human'', content = question\<rparr>,
                 \<lparr>mtype = ''system'', content = ''Context was truncated.''\<rparr>])"

definition greeted :: app_state where
  "greeted = \<lparr>messages = [\<lparr>mtype = ''human'', content = ''Hello''\<rparr>,
                          \<lparr>mtype = ''ai'', content = ''Hi, what do you need?''\<rparr>]\<rparr>"

section \<open>Facts about the string functions\<close>

lemma rev_dropWhile_split:
  "rev (dropWhile P (rev a)) @ rev (takeWhile P (rev a)) = a"
proof -
  have "rev (dropWhile P (rev a)) @ rev (takeWhile P (rev a)) =
        rev (takeWhile P (rev a) @ dropWhile P (rev a))"
    by (simp only: rev_append)
  also have "\<dots> = rev (rev a)"
    by (simp only: takeWhile_dropWhile_id)
  finally show ?thesis
    by simp
qed

lemma strip_split:
  "s = takeWhile isspace s @ strip s @ rev (takeWhile isspace (rev (dropWhile isspace s)))"
proof -
  have "strip s @ rev (takeWhile isspace (rev (dropWhile isspace s))) = dropWhile isspace s"
    unfolding strip_def by (rule rev_dropWhile_split)
  then show ?thesis
    by simp
qed

lemma strip_ends:
  assumes "strip s \<noteq> []"
  shows "\<not> isspace (hd (strip s))" and "\<not> isspace (last (strip s))"
proof -
  let ?a = "dropWhile isspace s"
  let ?b = "dropWhile isspace (rev ?a)"
  from assms have b: "?b \<noteq> []"
    by (simp add: strip_def)
  then have "\<not> isspace (hd ?b)"
    by (rule hd_dropWhile)
  with b show "\<not> isspace (last (strip s))"
    by (simp add: strip_def last_rev)
  have a: "?a \<noteq> []"
  proof
    assume e: "?a = []"
    have "?b = []" unfolding e by simp
    with b show False by simp
  qed
  then have na: "\<not> isspace (hd ?a)"
    by (rule hd_dropWhile)
  have "?a = strip s @ rev (takeWhile isspace (rev ?a))"
    using strip_split [of s] by (metis same_append_eq takeWhile_dropWhile_id)
  with assms have "hd ?a = hd (strip s)"
    by (metis hd_append2)
  with na show "\<not> isspace (hd (strip s))"
    by simp
qed

lemma strip_blank:
  assumes "list_all isspace s"
  shows "strip s = []"
proof -
  from assms have e: "dropWhile isspace s = []"
    by (simp add: list_all_iff)
  show ?thesis
    unfolding strip_def e by simp
qed

lemma strip_fixed:
  assumes "t = [] \<or> (\<not> isspace (hd t) \<and> \<not> isspace (last t))"
  shows "strip t = t"
proof (cases "t = []")
  case True
  then show ?thesis by (simp add: strip_def)
next
  case False
  with assms have h: "\<not> isspace (hd t)" and l: "\<not> isspace (last t)"
    by auto
  from False h have "dropWhile isspace t = t"
    by (cases t) auto
  moreover from False l have "dropWhile isspace (rev t) = rev t"
    by (cases "rev t") (auto simp: last_rev dest: arg_cong [where f = hd])
  ultimately show ?thesis
    by (simp add: strip_def)
qed

lemma strip_strip: "strip (strip s) = strip s"
  using strip_fixed [of "strip s"] strip_ends [of s] by blast

lemma basename_no_sep: "CHR ''/'' \<notin> set (basename p)"
  unfolding basename_def using set_takeWhileD by fastforce

lemma basename_split:
  "p = rev (dropWhile (\<lambda>c. c \<noteq> CHR ''/'') (rev p)) @ basename p"
  unfolding basename_def by (rule rev_dropWhile_split [symmetric])

lemma basename_dir:
  "rev (dropWhile (\<lambda>c. c \<noteq> CHR ''/'') (rev p)) = [] \<or>
   last (rev (dropWhile (\<lambda>c. c \<noteq> CHR ''/'') (rev p))) = CHR ''/''"
  using hd_dropWhile [of "\<lambda>c. c \<noteq> CHR ''/''" "rev p"] by (auto simp: last_rev)

section \<open>Facts about the handlers\<close>

lemma sources_loop_Inr:
  "sources_loop acc docs = Inr out \<longleftrightarrow>
   (\<exists>es. list_all2 (\<lambda>d e. source_entry d = Inr e) docs es \<and> out = acc @ es)"
proof (induction docs arbitrary: acc)
  case Nil
  then show ?case by auto
next
  case (Cons d docs)
  show ?case
  proof (cases "source_entry d")
    case (Inl e)
    then show ?thesis by (auto simp: list_all2_Cons1)
  next
    case (Inr entry)
    then show ?thesis by (auto simp: Cons.IH list_all2_Cons1)
  qed
qed

lemma source_entry_absent:
  "metadata d ''source'' = None \<Longrightarrow> source_entry d = Inr [(''source'', '''')]"
  by (simp add: source_entry_def basename_def)

lemma source_entry_path:
  "metadata d ''source'' = Some (MStr p) \<Longrightarrow> source_entry d = Inr [(''source'', basename p)]"
  by (simp add: source_entry_def)

lemma chat_endpoint_success:
  assumes "invoke (messages s) (strip q) = (Inr response, m)"
    and "source_documents response = Inr docs"
    and "sources_loop [] docs = Inr srcs"
  shows "chat_endpoint invoke s q =
           (Inr \<lparr>answer = (case response ''answer'' of None \<Rightarrow> VStr '''' | Some a \<Rightarrow> a),
                 sources = srcs,
                 chat_history = map render_message m\<rparr>,
            s\<lparr>messages := m\<rparr>)"
  using assms by (simp add: chat_endpoint_def)

lemma chat_endpoint_failure:
  assumes "invoke (messages s) (strip q) = (Inl e, m)"
  shows "chat_endpoint invoke s q = (Inl e, s\<lparr>messages := m\<rparr>)"
  using assms by (simp add: chat_endpoint_def)

lemma chat_endpoint_InrD:
  assumes "chat_endpoint invoke s q = (Inr resp, s')"
  shows "\<exists>response m docs srcs.
           invoke (messages s) (strip q) = (Inr response, m) \<and>
           source_documents response = Inr docs \<and>
           sources_loop [] docs = Inr srcs \<and>
           resp = \<lparr>answer = (case response ''answer'' of None \<Rightarrow> VStr '''' | Some a \<Rightarrow> a),
                   sources = srcs, chat_history = map render_message m\<rparr> \<and>
           s' = s\<lparr>messages := m\<rparr>"
  using assms
  by (auto simp: chat_endpoint_def Let_def split: prod.splits sum.splits)

lemma qa_chain_invoke_InrD:
  assumes "qa_chain_invoke P h question = (Inr response, m)"
  shows "\<exists>v docs a. embed P question = Inr v \<and> retrieve P v = Inr docs \<and>
           generate P question docs h = Inr a \<and>
           response ''answer'' = Some (VStr a) \<and>
           response ''source_documents'' = Some (VDocs docs) \<and>
           m = h @ [\<lparr>mtype = ''human'', content = question\<rparr>, \<lparr>mtype = ''ai'', content = a\<rparr>]"
  using assms
  by (auto simp: qa_chain_invoke_def split: sum.splits)

lemma render_turns:
  "render_message \<lparr>mtype = ''human'', content = c\<rparr> = [(''user'', c)]"
  "render_message \<lparr>mtype = ''ai'', content = c\<rparr> = [(''bot'', c)]"
  by (simp_all add: render_message_def)

lemma qa_step:
  assumes "chat_endpoint (qa_chain_invoke P) s q = (Inr resp, s')"
  shows "\<exists>a. answer resp = VStr a \<and>
           s' = s\<lparr>messages := messages s @ [\<lparr>mtype = ''human'', content = strip q\<rparr>,
                                             \<lparr>mtype = ''ai'', content = a\<rparr>]\<rparr> \<and>
           chat_history resp = map render_message (messages s')"
proof -
  from chat_endpoint_InrD [OF assms] obtain response m docs srcs where
    inv: "qa_chain_invoke P (messages s) (strip q) = (Inr response, m)" and
    resp: "resp = \<lparr>answer = (case response ''answer'' of None \<Rightarrow> VStr '''' | Some a \<Rightarrow> a),
                   sources = srcs, chat_history = map render_message m\<rparr>" and
    s': "s' = s\<lparr>messages := m\<rparr>"
    by blast
  from qa_chain_invoke_InrD [OF inv] obtain a where
    "response ''answer'' = Some (VStr a)" and
    "m = messages s @ [\<lparr>mtype = ''human'', content = strip q\<rparr>, \<lparr>mtype = ''ai'', content = a\<rparr>]"
    by blast
  with resp s' show ?thesis
    by simp
qed

lemma length_pairs:
  "length (concat (map (\<lambda>(q, a). [f q a, g q a]) zs)) = 2 * length zs"
  by (induction zs) auto

lemma chat_calls_history:
  assumes "chat_calls (qa_chain_invoke P) s qs = (rs, s')"
    and "list_all (\<lambda>r. \<not> isl r) rs"
  shows "\<exists>as. length as = length qs \<and> length rs = length qs \<and>
           messages s' = messages s @
             concat (map (\<lambda>(q, a). [\<lparr>mtype = ''human'', content = strip q\<rparr>,
                                     \<lparr>mtype = ''ai'', content = a\<rparr>]) (zip qs as)) \<and>
           (\<forall>i<length qs. \<exists>resp. rs ! i = Inr resp \<and> answer resp = VStr (as ! i) \<and>
              chat_history resp = map render_message (messages s) @
                concat (map (\<lambda>(q, a). [[(''user'', strip q)], [(''bot'', a)]])
                          (zip (take (Suc i) qs) (take (Suc i) as))))"
  using assms
proof (induction qs arbitrary: s rs s')
  case Nil
  then show ?case by simp
next
  case (Cons q qs)
  obtain r s1 where ce: "chat_endpoint (qa_chain_invoke P) s q = (r, s1)"
    by (cases "chat_endpoint (qa_chain_invoke P) s q")
  obtain rs1 s2 where cc: "chat_calls (qa_chain_invoke P) s1 qs = (rs1, s2)"
    by (cases "chat_calls (qa_chain_invoke P) s1 qs")
  from Cons.prems(1) ce cc have rs: "rs = r # rs1" and s2: "s' = s2"
    by simp_all
  with Cons.prems(2) have ok: "\<not> isl r" and oks: "list_all (\<lambda>r. \<not> isl r) rs1"
    by simp_all
  from ok obtain resp where r: "r = Inr resp"
    by (cases r) simp_all
  from qa_step [OF ce [unfolded r]] obtain a where
    a: "answer resp = VStr a" and
    m1: "messages s1 = messages s @ [\<lparr>mtype = ''human'', content = strip q\<rparr>,
                                     \<lparr>mtype = ''ai'', content = a\<rparr>]" and
    h: "chat_history resp = map render_message (messages s1)"
    by auto
  from Cons.IH [OF cc oks] obtain as where
    len: "length as = length qs" "length rs1 = length qs" and
    m2: "messages s2 = messages s1 @
           concat (map (\<lambda>(q, a). [\<lparr>mtype = ''human'', content = strip q\<rparr>,
                                   \<lparr>mtype = ''ai'', content = a\<rparr>]) (zip qs as))" and
    hs: "\<forall>i<length qs. \<exists>resp. rs1 ! i = Inr resp \<and> answer resp = VStr (as ! i) \<and>
              chat_history resp = map render_message (messages s1) @
                concat (map (\<lambda>(q, a). [[(''user'', strip q)], [(''bot'', a)]])
                          (zip (take (Suc i) qs) (take (Suc i) as)))"
    by blast
  have "\<exists>resp'. (r # rs1) ! i = Inr resp' \<and> answer resp' = VStr ((a # as) ! i) \<and>
              chat_history resp' = map render_message (messages s) @
                concat (map (\<lambda>(q, a). [[(''user'', strip q)], [(''bot'', a)]])
                          (zip (take (Suc i) (q # qs)) (take (Suc i) (a # as))))"
    if "i < length (q # qs)" for i
  proof (cases i)
    case 0
    with r a h m1 show ?thesis
      by (simp add: render_turns)
  next
    case (Suc j)
    with that have "j < length qs" by simp
    with hs obtain resp' where "rs1 ! j = Inr resp'" "answer resp' = VStr (as ! j)"
      "chat_history resp' = map render_message (messages s1) @
                concat (map (\<lambda>(q, a). [[(''user'', strip q)], [(''bot'', a)]])
                          (zip (take (Suc j) qs) (take (Suc j) as)))"
      by blast
    with Suc m1 show ?thesis
      by (simp add: render_turns)
  qed
  with len m1 m2 rs s2 show ?case
    by (intro exI [of _ "a # as"]) simp
qed

lemma takeWhile_all: "list_all P (takeWhile P xs)"
  by (induction xs) auto

lemma chat_endpoint_cong:
  "strip q = strip q' \<Longrightarrow> chat_endpoint invoke s q = chat_endpoint invoke s q'"
  by (simp add: chat_endpoint_def)

section \<open>The chat route: failure and success of a request\<close>

text \<open>
  C1, as the code has it. If a provider call made during \<^verbatim>\<open>POST /chat\<close> fails, be it
  the embedding, the retrieval or the generation, the request fails with that error and
  the process state, the memory included, is what it was before the request: no user
  turn and no assistant turn is appended. If the three provider calls succeed, the chain
  has appended the user turn and the assistant turn before the handler lists the
  sources: the request then succeeds when that loop completes and fails with the loop's
  error when it raises, and in both cases the memory holds the new pair.
\<close>

theorem chat_memory_follows_providers:
  "((embed P (strip q) = Inl e \<or>
     (\<exists>v. embed P (strip q) = Inr v \<and>
          (retrieve P v = Inl e \<or>
           (\<exists>docs. retrieve P v = Inr docs \<and>
                   generate P (strip q) docs (messages s) = Inl e)))) \<longrightarrow>
      chat_endpoint (qa_chain_invoke P) s q = (Inl e, s)) \<and>
   (embed P (strip q) = Inr v \<and> retrieve P v = Inr docs \<and>
    generate P (strip q) docs (messages s) = Inr a \<longrightarrow>
      snd (chat_endpoint (qa_chain_invoke P) s q) =
        s\<lparr>messages := messages s @ [\<lparr>mtype = ''human'', content = strip q\<rparr>,
                                       \<lparr>mtype = ''ai'', content = a\<rparr>]\<rparr> \<and>
      (\<forall>e'. sources_loop [] docs = Inl e' \<longrightarrow>
         fst (chat_endpoint (qa_chain_invoke P) s q) = Inl e') \<and>
      (\<forall>srcs. sources_loop [] docs = Inr srcs \<longrightarrow>
         fst (chat_endpoint (qa_chain_invoke P) s q) =
           Inr \<lparr>answer = VStr a, sources = srcs,
                chat_history =
                  map render_message
                    (messages s @ [\<lparr>mtype = ''human'', content = strip q\<rparr>,
                                   \<lparr>mtype = ''ai'', content = a\<rparr>])\<rparr>))"
proof (intro conjI impI allI)
  assume "embed P (strip q) = Inl e \<or>
     (\<exists>v. embed P (strip q) = Inr v \<and>
          (retrieve P v = Inl e \<or>
           (\<exists>docs. retrieve P v = Inr docs \<and>
                   generate P (strip q) docs (messages s) = Inl e)))"
  then have "qa_chain_invoke P (messages s) (strip q) = (Inl e, messages s)"
    by (auto simp: qa_chain_invoke_def)
  then have "chat_endpoint (qa_chain_invoke P) s q = (Inl e, s\<lparr>messages := messages s\<rparr>)"
    by (rule chat_endpoint_failure)
  then show "chat_endpoint (qa_chain_invoke P) s q = (Inl e, s)"
    by simp
next
  let ?m = "messages s @ [\<lparr>mtype = ''human'', content = strip q\<rparr>,
                           \<lparr>mtype = ''ai'', content = a\<rparr>]"
  let ?response = "[''question'' \<mapsto> VStr (strip q), ''chat_history'' \<mapsto> VMsgs (messages s),
                    ''answer'' \<mapsto> VStr a, ''source_documents'' \<mapsto> VDocs docs]"
  assume ok: "embed P (strip q) = Inr v \<and> retrieve P v = Inr docs \<and>
    generate P (strip q) docs (messages s) = Inr a"
  then have inv: "qa_chain_invoke P (messages s) (strip q) = (Inr ?response, ?m)"
    by (simp add: qa_chain_invoke_def)
  have sd: "source_documents ?response = Inr docs"
    by (simp add: source_documents_def)
  from inv sd show "snd (chat_endpoint (qa_chain_invoke P) s q) = s\<lparr>messages := ?m\<rparr>"
    by (simp add: chat_endpoint_def Let_def split: sum.splits)
  {
    fix e'
    assume "sources_loop [] docs = Inl e'"
    with inv sd show "fst (chat_endpoint (qa_chain_invoke P) s q) = Inl e'"
      by (simp add: chat_endpoint_def Let_def)
  }
  {
    fix srcs
    assume "sources_loop [] docs = Inr srcs"
    with inv sd show "fst (chat_endpoint (qa_chain_invoke P) s q) =
           Inr \<lparr>answer = VStr a, sources = srcs, chat_history = map render_message ?m\<rparr>"
      by (simp add: chat_endpoint_def Let_def)
  }
qed

text \<open>
  The generator is out of quota while the memory holds an earlier exchange, and the
  query has whitespace around it: the state stays. With a generator that answers, the
  same request succeeds and the memory holds the new pair.
\<close>

theorem chat_memory_follows_providers_witness:
  "embed quota_providers (strip '' What is the refund policy?  '') = Inr 26 \<and>
   retrieve quota_providers 26 = Inr [policy_chunk] \<and>
   generate quota_providers (strip '' What is the refund policy?  '') [policy_chunk] (messages greeted)
     = Inl (ProviderError ''quota'') \<and>
   chat_endpoint (qa_chain_invoke quota_providers) greeted '' What is the refund policy?  ''
     = (Inl (ProviderError ''quota''), greeted) \<and>
   embed refund_providers (strip '' What is the refund policy?  '') = Inr 26 \<and>
   retrieve refund_providers 26 = Inr [policy_chunk] \<and>
   generate refund_providers (strip '' What is the refund policy?  '') [policy_chunk] (messages greeted)
     = Inr ''Refunds are processed within 30 days.'' \<and>
   sources_loop [] [policy_chunk] = Inr [[(''source'', ''policy.pdf'')]] \<and>
   snd (chat_endpoint (qa_chain_invoke refund_providers) greeted '' What is the refund policy?  '') =
     greeted\<lparr>messages := messages greeted @
        [\<lparr>mtype = ''human'', content = strip '' What is the refund policy?  ''\<rparr>,
         \<lparr>mtype = ''ai'', content = ''Refunds are processed within 30 days.''\<rparr>]\<rparr> \<and>
   fst (chat_endpoint (qa_chain_invoke refund_providers) greeted '' What is the refund policy?  '') =
     Inr \<lparr>answer = VStr ''Refunds are processed within 30 days.'',
          sources = [[(''source'', ''policy.pdf'')]],
          chat_history =
            map render_message
              (messages greeted @
                 [\<lparr>mtype = ''human'', content = strip '' What is the refund policy?  ''\<rparr>,
                  \<lparr>mtype = ''ai'', content = ''Refunds are processed within 30 days.''\<rparr>])\<rparr>"
  (is "?e \<and> ?r \<and> ?g \<and> ?fail \<and> ?e' \<and> ?r' \<and> ?g' \<and> ?loop \<and> ?mem \<and> ?out")
proof -
  have e: ?e and e': ?e'
    by (simp_all add: quota_providers_def refund_providers_def strip_def isspace_def)
  have r: ?r and r': ?r'
    by (simp_all add: quota_providers_def refund_providers_def)
  have g: ?g and g': ?g'
    by (simp_all add: quota_providers_def refund_providers_def)
  have loop: ?loop
    by (simp add: policy_chunk_def source_entry_def basename_def)
  note t1 = chat_memory_follows_providers
              [where P = quota_providers and q = "'' What is the refund policy?  ''"
                 and s = greeted and e = "ProviderError ''quota''", THEN conjunct1]
  from e r g have fail: ?fail
    by (intro t1 [THEN mp]) blast
  note t2 = chat_memory_follows_providers
              [where P = refund_providers and q = "'' What is the refund policy?  ''"
                 and s = greeted and v = 26 and docs = "[policy_chunk]"
                 and a = "''Refunds are processed within 30 days.''",
               THEN conjunct2, THEN mp, OF conjI [OF e' conjI [OF r' g']]]
  from t2 have mem: ?mem
    by blast
  from t2 loop have out: ?out
    by blast
  from e r g fail e' r' g' loop mem out show ?thesis
    by blast
qed

text \<open>
  C1 as stated fails in its last part, that a request either fully succeeds with the
  memory update or fully fails with no memory change: every provider answers, the chain
  stores the pair, and the handler then raises on a chunk whose \<open>source\<close> is a number.
  The request has failed and the memory has grown by two turns.
\<close>

theorem chat_fails_after_memory_update:
  "chat_endpoint (qa_chain_invoke numbered_providers) greeted ''Can I return it?'' =
     (Inl TypeError,
      \<lparr>messages =
         [\<lparr>mtype = ''human'', content = ''Hello''\<rparr>,
          \<lparr>mtype = ''ai'', content = ''Hi, what do you need?''\<rparr>,
          \<lparr>mtype = ''human'', content = ''Can I return it?''\<rparr>,
          \<lparr>mtype = ''ai'', content = ''Keep the receipt.''\<rparr>]\<rparr>) \<and>
   messages greeted =
     [\<lparr>mtype = ''human'', content = ''Hello''\<rparr>,
      \<lparr>mtype = ''ai'', content = ''Hi, what do you need?''\<rparr>]"
  by (simp add: chat_endpoint_def qa_chain_invoke_def numbered_providers_def numbered_chunk_def
      greeted_def strip_def isspace_def source_documents_def source_entry_def Let_def)

text \<open>
  C2. A successful \<^verbatim>\<open>POST /chat\<close> appends exactly two turns to the memory, the user
  turn with the trimmed query and then the assistant turn with the answer. Hence, of
  \<open>N\<close> successful calls made one after the other on an empty memory, the \<open>n\<close>-th response
  carries a \<open>chat_history\<close> of length \<open>2n\<close>: the pairs of the first \<open>n\<close> calls in call
  order.
\<close>

theorem successful_chats_append_pairs:
  "(chat_endpoint (qa_chain_invoke P) s q = (Inr resp, t) \<longrightarrow>
      (\<exists>a. answer resp = VStr a \<and>
           messages t = messages s @ [\<lparr>mtype = ''human'', content = strip q\<rparr>,
                                       \<lparr>mtype = ''ai'', content = a\<rparr>])) \<and>
   (messages s = [] \<and> chat_calls (qa_chain_invoke P) s qs = (rs, s') \<and>
    list_all (\<lambda>r. \<not> isl r) rs \<longrightarrow>
      (\<exists>as. length as = length qs \<and> length rs = length qs \<and>
         (\<forall>n. 0 < n \<and> n \<le> length qs \<longrightarrow>
            (\<exists>resp. rs ! (n - 1) = Inr resp \<and> answer resp = VStr (as ! (n - 1)) \<and>
               length (chat_history resp) = 2 * n \<and>
               chat_history resp =
                 concat (map (\<lambda>(q, a). [[(''user'', strip q)], [(''bot'', a)]])
                           (zip (take n qs) (take n as)))))))"
proof (intro conjI impI)
  assume "chat_endpoint (qa_chain_invoke P) s q = (Inr resp, t)"
  from qa_step [OF this]
  show "\<exists>a. answer resp = VStr a \<and>
           messages t = messages s @ [\<lparr>mtype = ''human'', content = strip q\<rparr>,
                                       \<lparr>mtype = ''ai'', content = a\<rparr>]"
    by auto
next
  assume h: "messages s = [] \<and> chat_calls (qa_chain_invoke P) s qs = (rs, s') \<and>
    list_all (\<lambda>r. \<not> isl r) rs"
  then have e: "messages s = []" and cc: "chat_calls (qa_chain_invoke P) s qs = (rs, s')"
    and ok: "list_all (\<lambda>r. \<not> isl r) rs"
    by simp_all
  from chat_calls_history [OF cc ok] obtain as where
    len: "length as = length qs" "length rs = length qs" and
    hs: "\<forall>i<length qs. \<exists>resp. rs ! i = Inr resp \<and> answer resp = VStr (as ! i) \<and>
              chat_history resp = map render_message (messages s) @
                concat (map (\<lambda>(q, a). [[(''user'', strip q)], [(''bot'', a)]])
                          (zip (take (Suc i) qs) (take (Suc i) as)))"
    by blast
  have "\<exists>resp. rs ! (n - 1) = Inr resp \<and> answer resp = VStr (as ! (n - 1)) \<and>
               length (chat_history resp) = 2 * n \<and>
               chat_history resp =
                 concat (map (\<lambda>(q, a). [[(''user'', strip q)], [(''bot'', a)]])
                           (zip (take n qs) (take n as)))"
    if n: "0 < n \<and> n \<le> length qs" for n
  proof -
    from n have i: "n - 1 < length qs"
      by arith
    from n have sn: "Suc (n - 1) = n"
      by arith
    from hs i sn e obtain resp where
      r: "rs ! (n - 1) = Inr resp" "answer resp = VStr (as ! (n - 1))" and
      c: "chat_history resp =
                concat (map (\<lambda>(q, a). [[(''user'', strip q)], [(''bot'', a)]])
                          (zip (take n qs) (take n as)))"
      by fastforce
    from n len have "length (zip (take n qs) (take n as)) = n"
      by simp
    with c have "length (chat_history resp) = 2 * n"
      by (simp only: length_pairs)
    with r c show ?thesis
      by blast
  qed
  with len show "\<exists>as. length as = length qs \<and> length rs = length qs \<and>
         (\<forall>n. 0 < n \<and> n \<le> length qs \<longrightarrow>
            (\<exists>resp. rs ! (n - 1) = Inr resp \<and> answer resp = VStr (as ! (n - 1)) \<and>
               length (chat_history resp) = 2 * n \<and>
               chat_history resp =
                 concat (map (\<lambda>(q, a). [[(''user'', strip q)], [(''bot'', a)]])
                           (zip (take n qs) (take n as)))))"
    by blast
qed

text \<open>
  Two calls on an empty memory: the second response lists four records. The first call
  alone leaves the pair of its query and answer.
\<close>

theorem successful_chats_append_pairs_witness:
  "chat_calls (qa_chain_invoke refund_providers) \<lparr>messages = []\<rparr>
     ['' What is the refund policy?'', ''And for gifts?  ''] =
     ([Inr \<lparr>answer = VStr ''Refunds are processed within 30 days.'',
            sources = [[(''source'', ''policy.pdf'')]],
            chat_history =
              [[(''user'', ''What is the refund policy?'')],
               [(''bot'', ''Refunds are processed within 30 days.'')]]\<rparr>,
       Inr \<lparr>answer = VStr ''Refunds are processed within 30 days.'',
            sources = [[(''source'', ''policy.pdf'')]],
            chat_history =
              [[(''user'', ''What is the refund policy?'')],
               [(''bot'', ''Refunds are processed within 30 days.'')],
               [(''user'', ''And for gifts?'')],
               [(''bot'', ''Refunds are processed within 30 days.'')]]\<rparr>],
      \<lparr>messages =
         [\<lparr>mtype = ''human'', content = ''What is the refund policy?''\<rparr>,
          \<lparr>mtype = ''ai'', content = ''Refunds are processed within 30 days.''\<rparr>,
          \<lparr>mtype = ''human'', content = ''And for gifts?''\<rparr>,
          \<lparr>mtype = ''ai'', content = ''Refunds are processed within 30 days.''\<rparr>]\<rparr>) \<and>
   (\<exists>resp. [Inr \<lparr>answer = VStr ''Refunds are processed within 30 days.'',
            sources = [[(''source'', ''policy.pdf'')]],
            chat_history =
              [[(''user'', ''What is the refund policy?'')],
               [(''bot'', ''Refunds are processed within 30 days.'')]]\<rparr>,
       Inr \<lparr>answer = VStr ''Refunds are processed within 30 days.'',
            sources = [[(''source'', ''policy.pdf'')]],
            chat_history =
              [[(''user'', ''What is the refund policy?'')],
               [(''bot'', ''Refunds are processed within 30 days.'')],
               [(''user'', ''And for gifts?'')],
               [(''bot'', ''Refunds are processed within 30 days.'')]]\<rparr>] ! (2 - 1) = Inr resp \<and>
         length (chat_history resp) = 2 * 2) \<and>
   chat_endpoint (qa_chain_invoke refund_providers) \<lparr>messages = []\<rparr> '' What is the refund policy?'' =
     (Inr \<lparr>answer = VStr ''Refunds are processed within 30 days.'',
           sources = [[(''source'', ''policy.pdf'')]],
           chat_history =
             [[(''user'', ''What is the refund policy?'')],
              [(''bot'', ''Refunds are processed within 30 days.'')]]\<rparr>,
      \<lparr>messages =
         [\<lparr>mtype = ''human'', content = ''What is the refund policy?''\<rparr>,
          \<lparr>mtype = ''ai'', content = ''Refunds are processed within 30 days.''\<rparr>]\<rparr>) \<and>
   (\<exists>a. messages \<lparr>messages =
         [\<lparr>mtype = ''human'', content = ''What is the refund policy?''\<rparr>,
          \<lparr>mtype = ''ai'', content = ''Refunds are processed within 30 days.''\<rparr>]\<rparr> =
        messages \<lparr>messages = []\<rparr> @
          [\<lparr>mtype = ''human'', content = strip '' What is the refund policy?''\<rparr>,
           \<lparr>mtype = ''ai'', content = a\<rparr>])"
  (is "chat_calls ?inv ?s ?qs = (?rs, ?s2) \<and> ?concl \<and> ?one = (Inr ?r1, ?s1) \<and> ?pair")
proof -
  have cc: "chat_calls ?inv ?s ?qs = (?rs, ?s2)"
    by (simp add: chat_endpoint_def qa_chain_invoke_def refund_providers_def policy_chunk_def
        strip_def isspace_def source_documents_def source_entry_def basename_def
        render_message_def Let_def)
  have ok: "list_all (\<lambda>r. \<not> isl r) ?rs"
    by simp
  have e: "messages ?s = []"
    by simp
  from successful_chats_append_pairs
         [where P = refund_providers and s = "?s" and qs = "?qs" and rs = "?rs" and s' = "?s2",
          THEN conjunct2, THEN mp, OF conjI [OF e conjI [OF cc ok]]]
  obtain as where "length as = length ?qs" and
    n: "\<forall>n. 0 < n \<and> n \<le> length ?qs \<longrightarrow>
            (\<exists>resp. ?rs ! (n - 1) = Inr resp \<and> answer resp = VStr (as ! (n - 1)) \<and>
               length (chat_history resp) = 2 * n \<and>
               chat_history resp =
                 concat (map (\<lambda>(q, a). [[(''user'', strip q)], [(''bot'', a)]])
                           (zip (take n ?qs) (take n as))))"
    by blast
  from n [rule_format, of 2] have concl: ?concl
    by auto
  have one: "?one = (Inr ?r1, ?s1)"
    by (simp add: chat_endpoint_def qa_chain_invoke_def refund_providers_def policy_chunk_def
        strip_def isspace_def source_documents_def source_entry_def basename_def
        render_message_def Let_def)
  from successful_chats_append_pairs
         [where P = refund_providers and s = "?s" and q = "'' What is the refund policy?''"
            and resp = "?r1" and t = "?s1", THEN conjunct1, THEN mp, OF one]
  have pair: ?pair
    by blast
  from cc concl one pair show ?thesis
    by blast
qed

text \<open>
  C10. The \<open>chat_history\<close> of a successful \<^verbatim>\<open>POST /chat\<close> is read from the memory
  after the new pair is appended: it is the rendering of the memory the request leaves,
  and its last two entries are the trimmed query as a \<open>user\<close> record and then, as a
  \<open>bot\<close> record, the very string returned in the field \<open>answer\<close>.
\<close>

theorem chat_history_ends_with_new_pair:
  assumes "chat_endpoint (qa_chain_invoke P) s q = (Inr resp, s')"
  shows "\<exists>a. answer resp = VStr a \<and>
           messages s' = messages s @ [\<lparr>mtype = ''human'', content = strip q\<rparr>,
                                       \<lparr>mtype = ''ai'', content = a\<rparr>] \<and>
           chat_history resp = map render_message (messages s') \<and>
           chat_history resp =
             map render_message (messages s) @ [[(''user'', strip q)], [(''bot'', a)]] \<and>
           drop (length (chat_history resp) - 2) (chat_history resp) =
             [[(''user'', strip q)], [(''bot'', a)]]"
proof -
  from qa_step [OF assms] obtain a where
    a: "answer resp = VStr a" and
    s': "s' = s\<lparr>messages := messages s @ [\<lparr>mtype = ''human'', content = strip q\<rparr>,
                                             \<lparr>mtype = ''ai'', content = a\<rparr>]\<rparr>" and
    h: "chat_history resp = map render_message (messages s')"
    by blast
  from s' have m: "messages s' = messages s @ [\<lparr>mtype = ''human'', content = strip q\<rparr>,
                                               \<lparr>mtype = ''ai'', content = a\<rparr>]"
    by simp
  with h have h2: "chat_history resp =
             map render_message (messages s) @ [[(''user'', strip q)], [(''bot'', a)]]"
    by (simp add: render_turns)
  then have "drop (length (chat_history resp) - 2) (chat_history resp) =
             [[(''user'', strip q)], [(''bot'', a)]]"
    by simp
  with a m h h2 show ?thesis
    by blast
qed

text \<open>
  A question asked after an earlier exchange.
\<close>

theorem chat_history_ends_with_new_pair_witness:
  "chat_endpoint (qa_chain_invoke refund_providers) greeted '' What is the refund policy?  '' =
     (Inr \<lparr>answer = VStr ''Refunds are processed within 30 days.'',
           sources = [[(''source'', ''policy.pdf'')]],
           chat_history =
             [[(''user'', ''Hello'')], [(''bot'', ''Hi, what do you need?'')],
              [(''user'', ''What is the refund policy?'')],
              [(''bot'', ''Refunds are processed within 30 days.'')]]\<rparr>,
      \<lparr>messages =
         [\<lparr>mtype = ''human'', content = ''Hello''\<rparr>,
          \<lparr>mtype = ''ai'', content = ''Hi, what do you need?''\<rparr>,
          \<lparr>mtype = ''human'', content = ''What is the refund policy?''\<rparr>,
          \<lparr>mtype = ''ai'', content = ''Refunds are processed within 30 days.''\<rparr>]\<rparr>) \<and>
   drop 2 [[(''user'', ''Hello'')], [(''bot'', ''Hi, what do you need?'')],
           [(''user'', ''What is the refund policy?'')],
           [(''bot'', ''Refunds are processed within 30 days.'')]] =
     [[(''user'', strip '' What is the refund policy?  '')],
      [(''bot'', ''Refunds are processed within 30 days.'')]]"
  (is "?call = (Inr ?resp, ?s') \<and> ?tail")
proof -
  have ce: "?call = (Inr ?resp, ?s')"
    by (simp add: chat_endpoint_def qa_chain_invoke_def refund_providers_def policy_chunk_def
        greeted_def strip_def isspace_def source_documents_def source_entry_def basename_def
        render_message_def Let_def)
  from chat_history_ends_with_new_pair [OF ce] have ?tail
    by auto
  with ce show ?thesis
    by blast
qed

section \<open>The chat route: shaping the response\<close>

text \<open>
  C3. The handler trims the query before use and hands the trimmed query to the chain:
  the query is whitespace, the trimmed query, whitespace, the trimmed query having no
  whitespace at either end, and the request's outcome is the chain's outcome on the
  memory and that trimmed query, its error when it fails and the response built from its
  result when it succeeds. A chain that answers with the question it is given makes the
  trimmed query come back as the answer. A query that is empty or all whitespace
  reaches the chain as the empty string; nothing rejects it, and the request succeeds
  whenever the chain does and the sources can be listed.
\<close>

theorem chat_query_trimmed_empty_passed:
  "(\<exists>pre post. q = pre @ strip q @ post \<and> list_all isspace pre \<and> list_all isspace post) \<and>
   (strip q = [] \<or> (\<not> isspace (hd (strip q)) \<and> \<not> isspace (last (strip q)))) \<and>
   chat_endpoint invoke s q = chat_endpoint invoke s (strip q) \<and>
   (invoke (messages s) (strip q) = invoke' (messages s) (strip q) \<longrightarrow>
      chat_endpoint invoke s q = chat_endpoint invoke' s q) \<and>
   (\<forall>e m. invoke (messages s) (strip q) = (Inl e, m) \<longrightarrow>
      chat_endpoint invoke s q = (Inl e, s\<lparr>messages := m\<rparr>)) \<and>
   (\<forall>response m docs srcs.
      invoke (messages s) (strip q) = (Inr response, m) \<and>
      source_documents response = Inr docs \<and> sources_loop [] docs = Inr srcs \<longrightarrow>
      chat_endpoint invoke s q =
        (Inr \<lparr>answer = (case response ''answer'' of None \<Rightarrow> VStr '''' | Some a \<Rightarrow> a),
              sources = srcs, chat_history = map render_message m\<rparr>,
         s\<lparr>messages := m\<rparr>)) \<and>
   chat_endpoint echo_chain s q =
     (Inr \<lparr>answer = VStr (strip q), sources = [],
           chat_history =
             map render_message (messages s @ [\<lparr>mtype = ''human'', content = strip q\<rparr>])\<rparr>,
      s\<lparr>messages := messages s @ [\<lparr>mtype = ''human'', content = strip q\<rparr>]\<rparr>) \<and>
   (list_all isspace q \<longrightarrow>
      strip q = [] \<and>
      chat_endpoint invoke s q = chat_endpoint invoke s [] \<and>
      (\<forall>response m docs srcs.
         invoke (messages s) [] = (Inr response, m) \<and>
         source_documents response = Inr docs \<and> sources_loop [] docs = Inr srcs \<longrightarrow>
         chat_endpoint invoke s q =
           (Inr \<lparr>answer = (case response ''answer'' of None \<Rightarrow> VStr '''' | Some a \<Rightarrow> a),
                 sources = srcs, chat_history = map render_message m\<rparr>,
            s\<lparr>messages := m\<rparr>)))"
proof (intro conjI impI allI)
  have "q = takeWhile isspace q @ strip q @ rev (takeWhile isspace (rev (dropWhile isspace q)))"
    by (rule strip_split)
  moreover have "list_all isspace (takeWhile isspace q)"
    by (rule takeWhile_all)
  moreover have "list_all isspace (rev (takeWhile isspace (rev (dropWhile isspace q))))"
    by (simp add: takeWhile_all)
  ultimately show "\<exists>pre post. q = pre @ strip q @ post \<and> list_all isspace pre \<and> list_all isspace post"
    by blast
next
  show "strip q = [] \<or> (\<not> isspace (hd (strip q)) \<and> \<not> isspace (last (strip q)))"
    using strip_ends [of q] by blast
next
  show "chat_endpoint invoke s q = chat_endpoint invoke s (strip q)"
    by (simp add: chat_endpoint_def strip_strip)
next
  assume "invoke (messages s) (strip q) = invoke' (messages s) (strip q)"
  then show "chat_endpoint invoke s q = chat_endpoint invoke' s q"
    by (simp add: chat_endpoint_def)
next
  fix e m
  assume "invoke (messages s) (strip q) = (Inl e, m)"
  then show "chat_endpoint invoke s q = (Inl e, s\<lparr>messages := m\<rparr>)"
    by (rule chat_endpoint_failure)
next
  fix response m docs srcs
  assume "invoke (messages s) (strip q) = (Inr response, m) \<and>
      source_documents response = Inr docs \<and> sources_loop [] docs = Inr srcs"
  then have "invoke (messages s) (strip q) = (Inr response, m)"
    "source_documents response = Inr docs" "sources_loop [] docs = Inr srcs"
    by simp_all
  then show "chat_endpoint invoke s q =
        (Inr \<lparr>answer = (case response ''answer'' of None \<Rightarrow> VStr '''' | Some a \<Rightarrow> a),
              sources = srcs, chat_history = map render_message m\<rparr>,
         s\<lparr>messages := m\<rparr>)"
    by (rule chat_endpoint_success [where invoke = invoke and s = s and q = q])
next
  show "chat_endpoint echo_chain s q =
     (Inr \<lparr>answer = VStr (strip q), sources = [],
           chat_history =
             map render_message (messages s @ [\<lparr>mtype = ''human'', content = strip q\<rparr>])\<rparr>,
      s\<lparr>messages := messages s @ [\<lparr>mtype = ''human'', content = strip q\<rparr>]\<rparr>)"
    by (simp add: chat_endpoint_def echo_chain_def source_documents_def Let_def)
next
  assume "list_all isspace q"
  then show "strip q = []"
    by (rule strip_blank)
next
  assume "list_all isspace q"
  then have "strip q = []"
    by (rule strip_blank)
  moreover have "strip [] = []"
    by (simp add: strip_def)
  ultimately have "strip q = strip []"
    by simp
  then show "chat_endpoint invoke s q = chat_endpoint invoke s []"
    by (rule chat_endpoint_cong)
next
  fix response m docs srcs
  assume "list_all isspace q"
  then have e: "strip q = []"
    by (rule strip_blank)
  assume "invoke (messages s) [] = (Inr response, m) \<and>
         source_documents response = Inr docs \<and> sources_loop [] docs = Inr srcs"
  with e have "invoke (messages s) (strip q) = (Inr response, m)"
    "source_documents response = Inr docs" "sources_loop [] docs = Inr srcs"
    by simp_all
  then show "chat_endpoint invoke s q =
           (Inr \<lparr>answer = (case response ''answer'' of None \<Rightarrow> VStr '''' | Some a \<Rightarrow> a),
                 sources = srcs, chat_history = map render_message m\<rparr>,
            s\<lparr>messages := m\<rparr>)"
    by (rule chat_endpoint_success [where invoke = invoke and s = s and q = q])
qed

text \<open>
  A query of two blanks around a tab reaches the chain as the empty string. A padded
  question reaches the echoing chain without its padding, and on a chain whose generator
  is out of quota the request ends with the chain's error.
\<close>

theorem chat_query_trimmed_empty_passed_witness:
  "list_all isspace [CHR '' '', CHR 0x09, CHR '' ''] \<and>
   strip [CHR '' '', CHR 0x09, CHR '' ''] = [] \<and>
   listing_chain (messages greeted) [] =
     (Inr [''answer'' \<mapsto> VStr ''See the policy.'',
           ''source_documents'' \<mapsto> VDocs [policy_chunk, untitled_chunk, policy_chunk]],
      messages greeted @ [\<lparr>mtype = ''human'', content = []\<rparr>,
                          \<lparr>mtype = ''system'', content = ''Context was truncated.''\<rparr>]) \<and>
   chat_endpoint listing_chain greeted [CHR '' '', CHR 0x09, CHR '' ''] =
     chat_endpoint listing_chain greeted [] \<and>
   fst (chat_endpoint listing_chain greeted [CHR '' '', CHR 0x09, CHR '' '']) =
     Inr \<lparr>answer = VStr ''See the policy.'',
          sources = [[(''source'', ''policy.pdf'')], [(''source'', '''')],
                     [(''source'', ''policy.pdf'')]],
          chat_history =
            [[(''user'', ''Hello'')], [(''bot'', ''Hi, what do you need?'')],
             [(''user'', '''')], [(''bot'', ''Context was truncated.'')]]\<rparr> \<and>
   strip ''  What is new? '' = ''What is new?'' \<and>
   chat_endpoint echo_chain greeted ''  What is new? '' =
     (Inr \<lparr>answer = VStr ''What is new?'', sources = [],
           chat_history =
             [[(''user'', ''Hello'')], [(''bot'', ''Hi, what do you need?'')],
              [(''user'', ''What is new?'')]]\<rparr>,
      \<lparr>messages =
         [\<lparr>mtype = ''human'', content = ''Hello''\<rparr>,
          \<lparr>mtype = ''ai'', content = ''Hi, what do you need?''\<rparr>,
          \<lparr>mtype = ''human'', content = ''What is new?''\<rparr>]\<rparr>) \<and>
   chat_endpoint (qa_chain_invoke quota_providers) greeted ''  What is new? '' =
     (Inl (ProviderError ''quota''), greeted\<lparr>messages := messages greeted\<rparr>)"
  (is "?blank \<and> ?strip \<and> ?inv \<and> ?same \<and> ?out \<and> ?trim \<and> ?echo \<and> ?fail")
proof -
  have blank: ?blank
    by (simp add: isspace_def)
  have inv: ?inv
    by (simp add: listing_chain_def)
  note t = chat_query_trimmed_empty_passed
             [where q = "[CHR '' '', CHR 0x09, CHR '' '']" and invoke = listing_chain
                and s = greeted]
  from t blank have s: ?strip and same: ?same
    by blast+
  have out: ?out
    by (simp add: chat_endpoint_def listing_chain_def policy_chunk_def untitled_chunk_def
        greeted_def strip_def isspace_def source_documents_def source_entry_def basename_def
        render_message_def Let_def)
  have trim: ?trim
    by (simp add: strip_def isspace_def)
  note u = chat_query_trimmed_empty_passed
             [where q = "''  What is new? ''" and s = greeted
                and invoke = "qa_chain_invoke quota_providers"]
  from u have "chat_endpoint echo_chain greeted ''  What is new? '' =
     (Inr \<lparr>answer = VStr (strip ''  What is new? ''), sources = [],
           chat_history =
             map render_message
               (messages greeted @ [\<lparr>mtype = ''human'', content = strip ''  What is new? ''\<rparr>])\<rparr>,
      greeted\<lparr>messages := messages greeted @
                 [\<lparr>mtype = ''human'', content = strip ''  What is new? ''\<rparr>]\<rparr>)"
    by blast
  then have echo: ?echo
    by (simp add: trim greeted_def render_message_def)
  have "qa_chain_invoke quota_providers (messages greeted) (strip ''  What is new? '') =
          (Inl (ProviderError ''quota''), messages greeted)"
    by (simp add: qa_chain_invoke_def quota_providers_def)
  with u have fail: ?fail
    by blast
  from blank s inv same out trim echo fail show ?thesis
    by blast
qed

text \<open>
  C4. In a successful response, \<open>sources\<close> has one entry for each retrieved chunk, in
  retrieval order, duplicates kept. The entry of a chunk without the metadata key
  \<open>source\<close> is \<^verbatim>\<open>{"source": ""}\<close>; otherwise it is \<^verbatim>\<open>{"source": basename}\<close>, the path
  after its last slash: the base name has no slash, and what precedes it in the path is
  empty or ends with a slash.
\<close>

theorem sources_follow_retrieved_chunks:
  assumes "invoke (messages s) (strip q) = (Inr response, m)"
    and "response ''source_documents'' = Some (VDocs docs)"
    and "chat_endpoint invoke s q = (Inr resp, s')"
  shows "length (sources resp) = length docs \<and>
         (\<forall>i<length docs.
            (metadata (docs ! i) ''source'' = None \<and> sources resp ! i = [(''source'', '''')]) \<or>
            (\<exists>p. metadata (docs ! i) ''source'' = Some (MStr p) \<and>
                 sources resp ! i = [(''source'', basename p)] \<and>
                 CHR ''/'' \<notin> set (basename p) \<and>
                 (\<exists>d. p = d @ basename p \<and> (d = [] \<or> last d = CHR ''/''))))"
proof -
  from chat_endpoint_InrD [OF assms(3)] assms(1) obtain docs' srcs where
    sd: "source_documents response = Inr docs'" and
    sl: "sources_loop [] docs' = Inr srcs" and
    resp: "sources resp = srcs"
    by auto
  from sd assms(2) have "docs' = docs"
    by (simp add: source_documents_def)
  with sl obtain es where
    la: "list_all2 (\<lambda>d e. source_entry d = Inr e) docs es" and "srcs = es"
    by (auto simp: sources_loop_Inr)
  with resp have srcs: "sources resp = es"
    by simp
  from la have len: "length es = length docs"
    by (simp add: list_all2_lengthD)
  have "(metadata (docs ! i) ''source'' = None \<and> es ! i = [(''source'', '''')]) \<or>
        (\<exists>p. metadata (docs ! i) ''source'' = Some (MStr p) \<and>
             es ! i = [(''source'', basename p)] \<and>
             CHR ''/'' \<notin> set (basename p) \<and>
             (\<exists>d. p = d @ basename p \<and> (d = [] \<or> last d = CHR ''/'')))"
    if "i < length docs" for i
  proof -
    from la that have se: "source_entry (docs ! i) = Inr (es ! i)"
      by (rule list_all2_nthD)
    show ?thesis
    proof (cases "metadata (docs ! i) ''source''")
      case None
      with se show ?thesis
        by (simp add: source_entry_absent)
    next
      case (Some v)
      with se obtain p where p: "v = MStr p"
        by (cases v) (simp_all add: source_entry_def)
      with Some se have "es ! i = [(''source'', basename p)]"
        by (simp add: source_entry_path)
      moreover have "\<exists>d. p = d @ basename p \<and> (d = [] \<or> last d = CHR ''/'')"
        using basename_split [of p] basename_dir [of p] by blast
      ultimately show ?thesis
        using Some p basename_no_sep [of p] by blast
    qed
  qed
  with len srcs show ?thesis
    by simp
qed

text \<open>
  Three chunks, the first and the last from \<^verbatim>\<open>/docs/policy.pdf\<close>, the second without a
  source.
\<close>

theorem sources_follow_retrieved_chunks_witness:
  "listing_chain (messages greeted) (strip ''Where is it written?'') =
     (Inr [''answer'' \<mapsto> VStr ''See the policy.'',
           ''source_documents'' \<mapsto> VDocs [policy_chunk, untitled_chunk, policy_chunk]],
      messages greeted @ [\<lparr>mtype = ''human'', content = ''Where is it written?''\<rparr>,
                          \<lparr>mtype = ''system'', content = ''Context was truncated.''\<rparr>]) \<and>
   sources (projr (fst (chat_endpoint listing_chain greeted ''Where is it written?''))) =
     [[(''source'', ''policy.pdf'')], [(''source'', '''')], [(''source'', ''policy.pdf'')]] \<and>
   length (sources (projr (fst (chat_endpoint listing_chain greeted ''Where is it written?'')))) =
     length [policy_chunk, untitled_chunk, policy_chunk]"
  (is "?inv \<and> ?srcs \<and> ?len")
proof -
  have inv: ?inv
    by (simp add: listing_chain_def strip_def isspace_def)
  have sd: "[''answer'' \<mapsto> VStr ''See the policy.'',
           ''source_documents'' \<mapsto> VDocs [policy_chunk, untitled_chunk, policy_chunk]]
            ''source_documents'' = Some (VDocs [policy_chunk, untitled_chunk, policy_chunk])"
    by simp
  obtain resp s' where ce: "chat_endpoint listing_chain greeted ''Where is it written?'' = (Inr resp, s')"
    by (simp add: chat_endpoint_def listing_chain_def policy_chunk_def untitled_chunk_def
        greeted_def strip_def isspace_def source_documents_def source_entry_def basename_def
        render_message_def Let_def)
  have srcs: ?srcs
    by (simp add: chat_endpoint_def listing_chain_def policy_chunk_def untitled_chunk_def
        greeted_def strip_def isspace_def source_documents_def source_entry_def basename_def
        render_message_def Let_def)
  from sources_follow_retrieved_chunks [OF inv sd ce] ce have ?len
    by simp
  with inv srcs show ?thesis
    by blast
qed

text \<open>
  C8. In a successful response, \<open>chat_history\<close> has one record for each message of the
  memory, in order: \<^verbatim>\<open>{"user": content}\<close> for a message whose type is \<open>human\<close>, and
  \<^verbatim>\<open>{"bot": content}\<close> for a message of any other type. No message is left out and no
  third shape occurs.
\<close>

theorem chat_history_rendering_two_valued:
  assumes "chat_endpoint invoke s q = (Inr resp, s')"
  shows "length (chat_history resp) = length (messages s') \<and>
         (\<forall>i<length (messages s').
            (mtype (messages s' ! i) = ''human'' \<longrightarrow>
               chat_history resp ! i = [(''user'', content (messages s' ! i))]) \<and>
            (mtype (messages s' ! i) \<noteq> ''human'' \<longrightarrow>
               chat_history resp ! i = [(''bot'', content (messages s' ! i))]))"
proof -
  from chat_endpoint_InrD [OF assms] have "chat_history resp = map render_message (messages s')"
    by auto
  then show ?thesis
    by (simp add: render_message_def)
qed

text \<open>
  A memory that ends with a message of type \<open>system\<close>.
\<close>

theorem chat_history_rendering_two_valued_witness:
  "chat_endpoint listing_chain greeted ''Where is it written?'' =
     (Inr \<lparr>answer = VStr ''See the policy.'',
           sources = [[(''source'', ''policy.pdf'')], [(''source'', '''')],
                      [(''source'', ''policy.pdf'')]],
           chat_history =
             [[(''user'', ''Hello'')], [(''bot'', ''Hi, what do you need?'')],
              [(''user'', ''Where is it written?'')],
              [(''bot'', ''Context was truncated.'')]]\<rparr>,
      \<lparr>messages =
         [\<lparr>mtype = ''human'', content = ''Hello''\<rparr>,
          \<lparr>mtype = ''ai'', content = ''Hi, what do you need?''\<rparr>,
          \<lparr>mtype = ''human'', content = ''Where is it written?''\<rparr>,
          \<lparr>mtype = ''system'', content = ''Context was truncated.''\<rparr>]\<rparr>) \<and>
   length [[(''user'', ''Hello'')], [(''bot'', ''Hi, what do you need?'')],
           [(''user'', ''Where is it written?'')], [(''bot'', ''Context was truncated.'')]] =
     length [\<lparr>mtype = ''human'', content = ''Hello''\<rparr>,
          \<lparr>mtype = ''ai'', content = ''Hi, what do you need?''\<rparr>,
          \<lparr>mtype = ''human'', content = ''Where is it written?''\<rparr>,
          \<lparr>mtype = ''system'', content = ''Context was truncated.''\<rparr>]"
  (is "?call = (Inr ?resp, ?s') \<and> ?len")
proof -
  have ce: "?call = (Inr ?resp, ?s')"
    by (simp add: chat_endpoint_def listing_chain_def policy_chunk_def untitled_chunk_def
        greeted_def strip_def isspace_def source_documents_def source_entry_def basename_def
        render_message_def Let_def)
  from chat_history_rendering_two_valued [OF ce] have ?len
    by simp
  with ce show ?thesis
    by blast
qed

text \<open>
  C9. When the result mapping of the chain has no key \<open>source_documents\<close>, the request
  succeeds with an empty \<open>sources\<close> list; when it has no key \<open>answer\<close>, the returned
  answer is the empty string, and the request succeeds whenever the sources can be
  listed. A missing key makes the handler raise nothing.
\<close>

theorem missing_result_keys_default:
  assumes "invoke (messages s) (strip q) = (Inr response, m)"
  shows "(response ''source_documents'' = None \<longrightarrow>
            (\<exists>resp. chat_endpoint invoke s q = (Inr resp, s\<lparr>messages := m\<rparr>) \<and>
                    sources resp = [] \<and>
                    (response ''answer'' = None \<longrightarrow> answer resp = VStr ''''))) \<and>
         (response ''answer'' = None \<longrightarrow>
            (\<forall>docs srcs. source_documents response = Inr docs \<and> sources_loop [] docs = Inr srcs \<longrightarrow>
               chat_endpoint invoke s q =
                 (Inr \<lparr>answer = VStr '''', sources = srcs, chat_history = map render_message m\<rparr>,
                  s\<lparr>messages := m\<rparr>)))"
proof (intro conjI impI allI)
  assume none: "response ''source_documents'' = None"
  then have "source_documents response = Inr []"
    by (simp add: source_documents_def)
  from chat_endpoint_success [where invoke = invoke and s = s and q = q, OF assms this, of "[]"]
  show "\<exists>resp. chat_endpoint invoke s q = (Inr resp, s\<lparr>messages := m\<rparr>) \<and>
                    sources resp = [] \<and>
                    (response ''answer'' = None \<longrightarrow> answer resp = VStr '''')"
    by simp
next
  fix docs srcs
  assume a: "response ''answer'' = None"
    and b: "source_documents response = Inr docs \<and> sources_loop [] docs = Inr srcs"
  from b have "source_documents response = Inr docs" and "sources_loop [] docs = Inr srcs"
    by simp_all
  from chat_endpoint_success [where invoke = invoke and s = s and q = q, OF assms this] a
  show "chat_endpoint invoke s q =
          (Inr \<lparr>answer = VStr '''', sources = srcs, chat_history = map render_message m\<rparr>,
           s\<lparr>messages := m\<rparr>)"
    by simp
qed

text \<open>
  A chain that returns an empty mapping.
\<close>

theorem missing_result_keys_default_witness:
  "bare_chain (messages greeted) (strip ''Anything new?'') = (Inr Map.empty, messages greeted) \<and>
   (Map.empty :: response) ''source_documents'' = None \<and>
   (Map.empty :: response) ''answer'' = None \<and>
   chat_endpoint bare_chain greeted ''Anything new?'' =
     (Inr \<lparr>answer = VStr '''', sources = [],
           chat_history = map render_message (messages greeted)\<rparr>,
      greeted\<lparr>messages := messages greeted\<rparr>)"
  (is "?inv \<and> ?sd \<and> ?an \<and> ?call")
proof -
  have inv: ?inv
    by (simp add: bare_chain_def)
  have sd: "source_documents (Map.empty :: response) = Inr [] \<and> sources_loop [] [] = Inr []"
    by (simp add: source_documents_def)
  note t = missing_result_keys_default
             [where invoke = bare_chain and s = greeted and q = "''Anything new?''", OF inv]
  from t sd have ?call
    by simp
  with inv show ?thesis
    by simp
qed

section \<open>Start-up and the connection string\<close>

text \<open>
  C7, as the code has it. The module reads \<^verbatim>\<open>MONGODB_URI\<close> without a default and
  without a test: when the variable is missing, the client constructor receives \<open>None\<close>,
  and start-up fails exactly when that constructor, or the construction of the chain
  after it, raises. When unset, \<^verbatim>\<open>MONGODB_DB\<close> is \<^verbatim>\<open>my_db\<close> and \<^verbatim>\<open>MONGODB_COLLECTION\<close> is
  \<^verbatim>\<open>vector_docs\<close>. A process that starts has these settings and an empty memory.
\<close>

theorem startup_leaves_uri_to_client:
  assumes "env = load_dotenv dotenv environ"
    and "cfg = load_settings env"
  shows "MONGODB_URI cfg = env ''MONGODB_URI'' \<and>
         (env ''MONGODB_DB'' = None \<longrightarrow> MONGODB_DB cfg = ''my_db'') \<and>
         (env ''MONGODB_COLLECTION'' = None \<longrightarrow> MONGODB_COLLECTION cfg = ''vector_docs'') \<and>
         (env ''MONGODB_URI'' = None \<longrightarrow>
            (isl (startup MongoClient build_chain dotenv environ) \<longleftrightarrow>
               isl (MongoClient None) \<or>
               (\<exists>c. MongoClient None = Inr c \<and>
                    isl (build_chain env c (MONGODB_DB cfg) (MONGODB_COLLECTION cfg))))) \<and>
         (\<forall>srv. startup MongoClient build_chain dotenv environ = Inr srv \<longrightarrow>
            config srv = cfg \<and> messages (state srv) = [])"
  using assms
  by (auto simp: startup_def load_settings_def getenv_def Let_def split: sum.splits)

text \<open>
  None of the three variables is set; the environment holds the key of the language
  model.
\<close>

theorem startup_leaves_uri_to_client_witness:
  "load_dotenv Map.empty [''GROQ_API_KEY'' \<mapsto> ''gsk_test''] ''MONGODB_URI'' = None \<and>
   load_dotenv Map.empty [''GROQ_API_KEY'' \<mapsto> ''gsk_test''] ''MONGODB_DB'' = None \<and>
   load_dotenv Map.empty [''GROQ_API_KEY'' \<mapsto> ''gsk_test''] ''MONGODB_COLLECTION'' = None \<and>
   MONGODB_DB (load_settings (load_dotenv Map.empty [''GROQ_API_KEY'' \<mapsto> ''gsk_test''])) = ''my_db'' \<and>
   MONGODB_COLLECTION (load_settings (load_dotenv Map.empty [''GROQ_API_KEY'' \<mapsto> ''gsk_test''])) =
     ''vector_docs'' \<and>
   \<not> isl (local_client None) \<and>
   \<not> isl (startup local_client keyed_chain Map.empty [''GROQ_API_KEY'' \<mapsto> ''gsk_test'']) \<and>
   startup local_client keyed_chain Map.empty [''GROQ_API_KEY'' \<mapsto> ''gsk_test''] =
     Inr \<lparr>config = \<lparr>MONGODB_URI = None, MONGODB_DB = ''my_db'',
                     MONGODB_COLLECTION = ''vector_docs''\<rparr>,
          qa_chain = (''localhost'', ''my_db'', ''vector_docs''),
          state = \<lparr>messages = []\<rparr>\<rparr>"
  (is "?uri \<and> ?db \<and> ?coll \<and> ?dflt \<and> ?dflt' \<and> ?client \<and> ?serves \<and> ?start")
proof -
  have uri: ?uri and db: ?db and coll: ?coll
    by (simp_all add: load_dotenv_def)
  have client: ?client
    by (simp add: local_client_def)
  have start: ?start
    by (simp add: startup_def load_settings_def load_dotenv_def getenv_def local_client_def
        keyed_chain_def)
  note t = startup_leaves_uri_to_client
             [OF refl refl, where environ = "[''GROQ_API_KEY'' \<mapsto> ''gsk_test'']"
                and dotenv = Map.empty and MongoClient = local_client
                and build_chain = keyed_chain]
  from t db have dflt: ?dflt
    by blast
  from t coll have dflt': ?dflt'
    by blast
  from t uri client have serves: ?serves
    by (simp add: local_client_def keyed_chain_def load_dotenv_def)
  from uri db coll dflt dflt' client serves start show ?thesis
    by blast
qed

text \<open>
  C7 as stated fails: the \<^verbatim>\<open>.env\<close> file holds the key of the language model and nothing
  else, so \<^verbatim>\<open>MONGODB_URI\<close> is missing; the client constructor accepts the missing
  connection string, and start-up ends with a serving process.
\<close>

theorem startup_without_uri_serves:
  "load_dotenv [''GROQ_API_KEY'' \<mapsto> ''gsk_test''] Map.empty ''MONGODB_URI'' = None \<and>
   startup local_client keyed_chain [''GROQ_API_KEY'' \<mapsto> ''gsk_test''] Map.empty =
     Inr \<lparr>config = \<lparr>MONGODB_URI = None, MONGODB_DB = ''my_db'',
                     MONGODB_COLLECTION = ''vector_docs''\<rparr>,
          qa_chain = (''localhost'', ''my_db'', ''vector_docs''),
          state = \<lparr>messages = []\<rparr>\<rparr>"
  by (simp add: startup_def load_settings_def load_dotenv_def getenv_def local_client_def
      keyed_chain_def)

section \<open>Resetting the memory and the liveness route\<close>

text \<open>
  C5. \<^verbatim>\<open>GET /reset_memory\<close> is idempotent: after one call the memory is empty, a second
  call in a row leaves it empty again and changes nothing else, and every call returns
  the payload \<^verbatim>\<open>{"message": "Memory cleared!"}\<close> whatever the memory held.
\<close>

theorem reset_memory_idempotent:
  "messages (snd (reset_memory s)) = []
   \<and> messages (snd (reset_memory (snd (reset_memory s)))) = []
   \<and> snd (reset_memory (snd (reset_memory s))) = snd (reset_memory s)
   \<and> fst (reset_memory s) = [(''message'', ''Memory cleared!'')]
   \<and> fst (reset_memory (snd (reset_memory s))) = fst (reset_memory s)"
  by (simp add: reset_memory_def)

text \<open>
  C6. \<^verbatim>\<open>GET /\<close> returns the payload
  \<^verbatim>\<open>{"message": "RAG Chatbot (MongoDB Atlas) is running!"}\<close> and leaves the whole process
  state, the memory included, as it was.
\<close>

theorem root_fixed_payload_no_effect:
  "root s = ([(''message'', ''RAG Chatbot (MongoDB Atlas) is running!'')], s)
   \<and> messages (snd (root s)) = messages s"
  by (simp add: root_def)

end
